theory Spec2Isabelle
  imports
    Main
    "HOL-Library.Word"
    "HOL-Library.Char_ord"
    "HOL-Library.List_Lexorder"
    "HOL-Library.Multiset"
begin

unbundle bit_operations_syntax

section \<open>Errors\<close>

text \<open>
  Go's \<open>error\<close> values, by the constructor the source uses to build them:
  \<open>errors.New(msg)\<close>, \<open>fmt.Errorf(format, args...)\<close> (the format string and its
  arguments are kept apart, so no formatting verb has to be interpreted) and
  \<open>cli.NewExitError(msg, code)\<close>. A \<open>nil\<close> error is \<open>None\<close> of \<open>error option\<close>.
\<close>

datatype error =
    Error string
  | Errorf string "string list"
  | ExitError string int

section \<open>The command line: \<open>cmd/genji/main.go\<close>\<close>

subsection \<open>Library functions the actions call\<close>

text \<open>
  \<open>strings.HasSuffix(s, suffix)\<close> of the Go standard library:
  \<open>len(s) >= len(suffix) && s[len(s)-len(suffix):] == suffix\<close>.
\<close>

definition HasSuffix :: "string \<Rightarrow> string \<Rightarrow> bool" where
  "HasSuffix s suffix \<longleftrightarrow>
     length s \<ge> length suffix \<and> drop (length s - length suffix) s = suffix"

text \<open>
  \<open>c.Args().First()\<close> of urfave/cli: the first positional argument, or the empty
  string when there is none.
\<close>

definition First :: "string list \<Rightarrow> string" where
  "First args = (case args of [] \<Rightarrow> [] | a # _ \<Rightarrow> a)"

subsection \<open>The root command\<close>

text \<open>The \<open>shell.Options\<close> value handed to \<open>shell.Run\<close>.\<close>

record shell_Options =
  Engine :: string
  DBPath :: string

text \<open>
  \<open>app.Action\<close>. Its inputs are the two boolean flags and the positional arguments;
  \<open>shell_Run\<close> stands for \<open>shell.Run\<close> (the interactive shell, not part of this
  file), whose returned error the action returns unchanged.
\<close>

definition app_Action ::
  "(shell_Options \<Rightarrow> error option) \<Rightarrow> bool \<Rightarrow> bool \<Rightarrow> string list \<Rightarrow> error option" where
  "app_Action shell_Run useBolt useBadger args =
     (if useBolt \<and> useBadger then
        Some (ExitError ''cannot use bolt and badger options at the same time'' 2)
      else
        let dbpath = First args in
        if (useBolt \<or> useBadger) \<and> dbpath = '''' then
          Some (ExitError ''db path required when using bolt or badger'' 2)
        else
          let engine = ''memory'';
              engine = (if useBolt \<or> dbpath \<noteq> '''' then ''bolt'' else engine);
              engine = (if useBadger then ''badger'' else engine)
          in shell_Run \<lparr>Engine = engine, DBPath = dbpath\<rparr>)"

subsection \<open>The restore command\<close>

text \<open>\<open>c.Command.UsageText\<close> of the restore command.\<close>

definition restore_UsageText :: string where
  "restore_UsageText = ''genji restore [options] dumpFile dbPath''"

text \<open>
  The restore command's \<open>Action\<close>. \<open>os_Open\<close> stands for \<open>os.Open\<close> and
  \<open>runRestoreCommand\<close> for the function of that name (neither is in this file).
  The result is the returned error together with the list of paths the action has
  passed to \<open>os.Open\<close>, in order, so that "no file was opened" is the empty list.
\<close>

definition restore_Action ::
  "(string \<Rightarrow> error + 'f) \<Rightarrow> ('f \<Rightarrow> string \<Rightarrow> string \<Rightarrow> string \<Rightarrow> error option) \<Rightarrow>
   string \<Rightarrow> string \<Rightarrow> string list \<Rightarrow> string list \<times> error option" where
  "restore_Action os_Open runRestoreCommand engine table args =
     (if engine \<noteq> ''bolt'' \<and> engine \<noteq> ''badger'' then
        ([], Some (Errorf ''unsupported engine %q, only 'bolt' or 'badger' can be used'' [engine]))
      else if length args \<noteq> 2 then
        ([], Some (Errorf ''bad arguments: %v'' [restore_UsageText]))
      else if \<not> HasSuffix (args ! 0) ''.sql'' then
        ([], Some (Error ''first argument should be an SQL file''))
      else if \<not> HasSuffix (args ! 1) ''.db'' then
        ([], Some (Error ''second argument should be a database file''))
      else
        (case os_Open (args ! 0) of
           Inl err \<Rightarrow> ([args ! 0], Some err)
         | Inr file \<Rightarrow> ([args ! 0], runRestoreCommand file engine table (args ! 1))))"

text \<open>Example collaborators for concrete runs: a file system with one file, a shell
  and a restore routine that succeed.\<close>

definition example_Open :: "string \<Rightarrow> error + string" where
  "example_Open path =
     (if path = ''dump.sql'' then Inr ''CREATE TABLE foo;''
      else Inl (Error ''no such file or directory''))"

definition example_runRestore :: "string \<Rightarrow> string \<Rightarrow> string \<Rightarrow> string \<Rightarrow> error option" where
  "example_runRestore file engine table dbPath = None"

section \<open>The hash set of the planner\<close>

type_synonym byte = "8 word"
type_synonym uint64 = "64 word"

subsection \<open>Interfaces the hash set is written against\<close>

text \<open>
  An object of Go's \<open>hash.Hash64\<close> interface: its methods together with its current
  state. \<open>Write\<close> never fails for a hash, \<open>Sum64\<close> reads the state without changing
  it, and \<open>Reset\<close> "resets the Hash to its initial state" (the documentation of
  \<open>hash.Hash\<close>), so the object carries that initial state in \<open>h_initial\<close>.
\<close>

record 'h Hash64 =
  h_write :: "'h \<Rightarrow> byte list \<Rightarrow> 'h"
  h_sum64 :: "'h \<Rightarrow> uint64"
  h_initial :: "'h"
  h_state :: "'h"

definition Write :: "'h Hash64 \<Rightarrow> byte list \<Rightarrow> 'h Hash64" where
  "Write h p = h\<lparr>h_state := h_write h (h_state h) p\<rparr>"

definition Sum64 :: "'h Hash64 \<Rightarrow> uint64" where
  "Sum64 h = h_sum64 h (h_state h)"

definition Reset :: "'h Hash64 \<Rightarrow> 'h Hash64" where
  "Reset h = h\<lparr>h_state := h_initial h\<rparr>"

text \<open>
  A hash algorithm, from which objects are made: how a state absorbs bytes, how it is
  read, and the state of a new object (for a seeded algorithm such as that of
  \<open>hash/maphash\<close>, the state that holds the object's seed and no bytes). A new
  object, such as \<open>&maphash.Hash{}\<close> or the result of \<open>fnv.New64a()\<close>, is in that
  state.
\<close>

record 'h Hash64_algorithm =
  a_write :: "'h \<Rightarrow> byte list \<Rightarrow> 'h"
  a_sum64 :: "'h \<Rightarrow> uint64"
  a_initial :: "'h"

definition new_Hash64 :: "'h Hash64_algorithm \<Rightarrow> 'h Hash64" where
  "new_Hash64 a =
     \<lparr>h_write = a_write a, h_sum64 = a_sum64 a, h_initial = a_initial a,
      h_state = a_initial a\<rparr>"

text \<open>
  An object of the \<open>document.Document\<close> interface, by its two methods. \<open>Iterate\<close>
  visits the (field, value) pairs in the document's own order and may fail;
  \<open>GetByField\<close> looks one field up and may fail.
\<close>

record 'v Document =
  Iterate :: "error + (string \<times> 'v) list"
  GetByField :: "string \<Rightarrow> error + 'v"

text \<open>
  Modelled from the spec: \<open>document.Fields\<close> is called by \<open>generateKey\<close> but is not
  part of the source at hand. The spec says that field iteration for hashing is
  performed in a canonical (sorted) order: the function enumerates the field names
  with \<open>Iterate\<close>, returns the enumeration's error if there is one, and otherwise the
  names sorted (bytewise, as Go compares strings).
\<close>

definition Fields :: "'v Document \<Rightarrow> error + string list" where
  "Fields d = (case Iterate d of Inl err \<Rightarrow> Inl err | Inr kvs \<Rightarrow> Inr (sort (map fst kvs)))"

text \<open>
  A \<open>document.ValueEncoder\<close> over a sink: what \<open>Encode\<close> does for a value is given by
  the bytes it writes to the sink and the error it returns (\<open>None\<close> for \<open>nil\<close>); an
  encoder that fails may have written some bytes before. The bytes of one value reach
  the sink in one \<open>Write\<close>, a hash being indifferent to how its input is cut into
  calls.
\<close>

type_synonym 'v ValueEncoder = "'v \<Rightarrow> byte list \<times> error option"

definition Encode :: "'v ValueEncoder \<Rightarrow> 'h Hash64 \<Rightarrow> 'v \<Rightarrow> error option \<times> 'h Hash64" where
  "Encode enc w v = (snd (enc v), Write w (fst (enc v)))"

subsection \<open>\<open>documentHashSet\<close>\<close>

text \<open>
  The struct: the accumulator and the set of recorded keys (the keys of the Go map
  \<open>set\<close>). Both are references in Go, so the methods, although they have a value
  receiver, update them; here every operation returns the updated hash set.
\<close>

record 'h documentHashSet =
  hash :: "'h Hash64"
  set_keys :: "uint64 set"

text \<open>
  \<open>newDocumentHashSet\<close>. The argument is \<open>None\<close> for a \<open>nil\<close> hash, in which case
  a new object \<open>&maphash.Hash{}\<close> is made; \<open>maphash\<close> stands for the algorithm of the
  standard library's \<open>hash/maphash\<close> with the seed that object draws (both are
  internal to the Go runtime).
\<close>

definition newDocumentHashSet ::
  "'h Hash64_algorithm \<Rightarrow> 'h Hash64 option \<Rightarrow> 'h documentHashSet" where
  "newDocumentHashSet maphash hash_arg =
     (let hash = (case hash_arg of None \<Rightarrow> new_Hash64 maphash | Some h \<Rightarrow> h)
      in \<lparr>hash = hash, set_keys = {}\<rparr>)"

text \<open>The \<open>for _, field := range fields\<close> loop of \<open>generateKey\<close>: the error it
  stops with, if any, and the sink as it has left it.\<close>

fun generateKey_loop ::
  "'v ValueEncoder \<Rightarrow> 'v Document \<Rightarrow> string list \<Rightarrow> 'h Hash64 \<Rightarrow> error option \<times> 'h Hash64" where
  "generateKey_loop enc d [] h = (None, h)"
| "generateKey_loop enc d (field # rest) h =
     (case GetByField d field of
        Inl err \<Rightarrow> (Some err, h)
      | Inr v \<Rightarrow>
          (case Encode enc h v of
             (Some err, h') \<Rightarrow> (Some err, h')
           | (None, h') \<Rightarrow> generateKey_loop enc d rest h'))"

text \<open>The body of \<open>generateKey\<close> without the deferred call: the returned pair and
  the accumulator at the moment of return.\<close>

definition generateKey_body ::
  "'v ValueEncoder \<Rightarrow> 'h Hash64 \<Rightarrow> 'v Document \<Rightarrow> (uint64 \<times> error option) \<times> 'h Hash64" where
  "generateKey_body enc h d =
     (case Fields d of
        Inl err \<Rightarrow> ((0, Some err), h)
      | Inr field_names \<Rightarrow>
          (case generateKey_loop enc d field_names h of
             (Some err, h') \<Rightarrow> ((0, Some err), h')
           | (None, h') \<Rightarrow> ((Sum64 h', None), h')))"

text \<open>\<open>generateKey\<close>: the body, then the deferred \<open>s.hash.Reset()\<close>, which runs after
  the return values have been computed and on every return.\<close>

definition generateKey ::
  "'v ValueEncoder \<Rightarrow> 'h documentHashSet \<Rightarrow> 'v Document \<Rightarrow>
   (uint64 \<times> error option) \<times> 'h documentHashSet" where
  "generateKey enc s d =
     (case generateKey_body enc (hash s) d of
        (r, h') \<Rightarrow> (r, s\<lparr>hash := Reset h'\<rparr>))"

definition Filter ::
  "'v ValueEncoder \<Rightarrow> 'h documentHashSet \<Rightarrow> 'v Document \<Rightarrow>
   (bool \<times> error option) \<times> 'h documentHashSet" where
  "Filter enc s d =
     (case generateKey enc s d of
        ((k, Some err), s') \<Rightarrow> ((False, Some err), s')
      | ((k, None), s') \<Rightarrow>
          if k \<in> set_keys s' then ((False, None), s')
          else ((True, None), s'\<lparr>set_keys := insert k (set_keys s')\<rparr>))"

subsection \<open>Streams of documents through the filter\<close>

text \<open>
  Successive calls of \<open>Filter\<close> on the documents of a stream, in order: the
  documents for which it returned \<open>true\<close>, and the hash set afterwards. The calls
  go on after one that returned an error; an operator that stops at the first error
  makes the calls of a prefix of the stream.
\<close>

fun Filter_stream ::
  "'v ValueEncoder \<Rightarrow> 'h documentHashSet \<Rightarrow> 'v Document list \<Rightarrow>
   'v Document list \<times> 'h documentHashSet" where
  "Filter_stream enc s [] = ([], s)"
| "Filter_stream enc s (d # ds) =
     (case Filter enc s d of
        ((ok, err), s') \<Rightarrow>
          (case Filter_stream enc s' ds of
             (out, s'') \<Rightarrow> ((if ok then d # out else out), s'')))"

text \<open>The surrogate key of a document: what \<open>generateKey\<close> returns for it from a
  reset accumulator, \<open>None\<close> when the computation fails.\<close>

definition keyOf :: "'v ValueEncoder \<Rightarrow> 'h Hash64 \<Rightarrow> 'v Document \<Rightarrow> uint64 option" where
  "keyOf enc h d =
     (case fst (generateKey_body enc (Reset h) d) of
        (k, None) \<Rightarrow> Some k
      | (k, Some err) \<Rightarrow> None)"

text \<open>A hash set is fresh when no key is recorded and its accumulator is in its
  initial state.\<close>

definition fresh :: "'h documentHashSet \<Rightarrow> bool" where
  "fresh s \<longleftrightarrow> set_keys s = {} \<and> h_state (hash s) = h_initial (hash s)"

section \<open>Values and documents\<close>

text \<open>
  Modelled from the spec: the value model is not part of the source at hand. The spec
  gives a Value as a tagged variant over Null, Bool, Int64, Float64, Text, Blob, Array
  and Document; the Float64 tag is left out, no claim treated here reading a float.
\<close>

datatype Value =
    NullValue
  | BoolValue bool
  | Int64Value "64 word"
  | TextValue string
  | BlobValue "byte list"
  | ArrayValue "Value list"
  | DocumentValue "(string \<times> Value) list"

text \<open>
  Modelled from the spec: a concrete document (the \<open>document.FieldBuffer\<close> of the
  repository, not part of the source at hand), "an ordered-by-insertion mapping from
  field name to Value". Enumeration yields the pairs in insertion order and never
  fails; looking up a field that is absent is an error.
\<close>

definition fieldBuffer :: "(string \<times> 'v) list \<Rightarrow> 'v Document" where
  "fieldBuffer kvs =
     \<lparr>Iterate = Inr kvs,
      GetByField = (\<lambda>field. case map_of kvs field of
                               None \<Rightarrow> Inl (Error ''field not found'')
                             | Some v \<Rightarrow> Inr v)\<rparr>"

section \<open>Concrete inputs\<close>

text \<open>
  Two accumulators for concrete runs. \<open>fnv64a\<close> is 64-bit FNV-1a, the algorithm of
  \<open>fnv.New64a()\<close> in the standard library, and \<open>fnv_New64a\<close> a new object of it; in
  concrete runs the algorithm also takes the place of the default one. \<open>sum_Hash64\<close>
  is a weak \<open>Hash64\<close> a caller may pass: the sum of the bytes written.
\<close>

definition fnv64a :: "uint64 Hash64_algorithm" where
  "fnv64a =
     \<lparr>a_write = foldl (\<lambda>h b. (h XOR ucast b) * 1099511628211),
      a_sum64 = (\<lambda>h. h),
      a_initial = 14695981039346656037\<rparr>"

definition fnv_New64a :: "uint64 Hash64" where
  "fnv_New64a = new_Hash64 fnv64a"

definition sum_Hash64 :: "uint64 Hash64" where
  "sum_Hash64 =
     \<lparr>h_write = foldl (\<lambda>h b. h + ucast b), h_sum64 = (\<lambda>h. h), h_initial = 0, h_state = 0\<rparr>"

text \<open>
  An encoder for concrete runs: a tag byte followed by the value's bytes (an integer
  as eight bytes, most significant first), and an error for arrays and nested
  documents.
\<close>

definition bytes_of_uint64 :: "uint64 \<Rightarrow> byte list" where
  "bytes_of_uint64 w = map (\<lambda>i. ucast (drop_bit (8 * i) w)) (rev [0..<8])"

fun example_encoder :: "Value ValueEncoder" where
  "example_encoder NullValue = ([0x05], None)"
| "example_encoder (BoolValue b) = ([0x10, if b then 1 else 0], None)"
| "example_encoder (Int64Value i) = (0x30 # bytes_of_uint64 i, None)"
| "example_encoder (TextValue s) = (0x80 # map (\<lambda>c. of_nat (of_char c)) s, None)"
| "example_encoder (BlobValue b) = (0x90 # b, None)"
| "example_encoder v = ([], Some (Error ''unsupported type''))"

text \<open>
  Documents used as concrete inputs. Apart from the two written out with their methods
  they are field buffers; \<open>doc_unreadable\<close> is a document whose enumeration fails (as
  that of a lazily decoded document with a damaged encoding does), and
  \<open>doc_lookup_fails\<close> one whose second field cannot be read.
\<close>

definition doc_bar :: "Value Document" where
  "doc_bar = fieldBuffer [(''id'', Int64Value 1), (''name'', TextValue ''bar'')]"

definition doc_baz :: "Value Document" where
  "doc_baz = fieldBuffer [(''id'', Int64Value 2), (''name'', TextValue ''baz'')]"

definition doc_blob12 :: "Value Document" where
  "doc_blob12 = fieldBuffer [(''a'', BlobValue [1, 2])]"

definition doc_blob21 :: "Value Document" where
  "doc_blob21 = fieldBuffer [(''a'', BlobValue [2, 1])]"

definition doc_a1 :: "Value Document" where
  "doc_a1 = fieldBuffer [(''a'', Int64Value 1)]"

definition doc_b1 :: "Value Document" where
  "doc_b1 = fieldBuffer [(''b'', Int64Value 1)]"

definition doc_unsupported :: "Value Document" where
  "doc_unsupported = fieldBuffer [(''a'', Int64Value 1), (''x'', ArrayValue [])]"

definition doc_unreadable :: "Value Document" where
  "doc_unreadable =
     \<lparr>Iterate = Inl (Error ''unexpected end of encoded document''),
      GetByField = (\<lambda>field. Inl (Error ''unexpected end of encoded document''))\<rparr>"

definition doc_lookup_fails :: "Value Document" where
  "doc_lookup_fails =
     \<lparr>Iterate = Inr [(''a'', Int64Value 1), (''b'', Int64Value 2)],
      GetByField = (\<lambda>field. if field = ''a'' then Inr (Int64Value 1)
                              else Inl (Error ''malformed value''))\<rparr>"

section \<open>The query pipeline of the example\<close>

text \<open>
  Modelled from the spec: the document store, the plan operators, the planner and the
  executor are exercised by \<open>Example\<close> but are not part of the source at hand. The
  definitions below follow sections 3 and 4.3 to 4.6 of the spec for the operations the
  example uses: insertion under an auto-generated key, a full table scan in key order,
  a filter, a projection, and an executor that drains the root operator.
\<close>

type_synonym doc = "(string \<times> Value) list"

text \<open>
  Modelled from the spec: a table is a collection of documents, each addressed by a
  unique primary key, iterated in key order. Only the surrogate key of a table that
  declares no primary key is modelled: keys are positive integers and the rows are
  kept in increasing key order.
\<close>

type_synonym table = "(nat \<times> doc) list"

type_synonym database = "string \<Rightarrow> table option"

text \<open>
  Modelled from the spec: \<open>insert(table, document)\<close> generates "a new monotonically
  increasing surrogate key unique within the table" and stores the document under it;
  an absent table is a NotFound error.
\<close>

definition next_key :: "table \<Rightarrow> nat" where
  "next_key t = (if t = [] then 1 else Suc (fst (last t)))"

definition insert_doc :: "string \<Rightarrow> doc \<Rightarrow> database \<Rightarrow> error + database" where
  "insert_doc name d db =
     (case db name of
        None \<Rightarrow> Inl (Error ''table not found'')
      | Some t \<Rightarrow> Inr (db(name \<mapsto> t @ [(next_key t, d)])))"

text \<open>Modelled from the spec: creating a table that does not exist yet gives it an
  empty store; \<open>IF NOT EXISTS\<close> leaves an existing table as it is.\<close>

definition create_table_if_not_exists :: "string \<Rightarrow> database \<Rightarrow> database" where
  "create_table_if_not_exists name db =
     (case db name of None \<Rightarrow> db(name \<mapsto> []) | Some t \<Rightarrow> db)"

text \<open>
  Modelled from the spec: the predicate of a query. A field reference evaluates to the
  field's value, or to Null when the document has no such field; equality of two
  non-Null values is a Boolean, and a comparison with Null is Null.
\<close>

datatype expr = FieldRef string | Literal Value | Eq expr expr

fun eval_expr :: "expr \<Rightarrow> doc \<Rightarrow> Value" where
  "eval_expr (FieldRef f) d = (case map_of d f of None \<Rightarrow> NullValue | Some v \<Rightarrow> v)"
| "eval_expr (Literal v) d = v"
| "eval_expr (Eq a b) d =
     (let x = eval_expr a d; y = eval_expr b d
      in if x = NullValue \<or> y = NullValue then NullValue else BoolValue (x = y))"

text \<open>
  Modelled from the spec: the plan operators. Scan yields the documents of a table in
  key order; Filter "forwards only documents for which the predicate evaluates to a
  true Boolean value" and excludes the others without an error; Projection rewrites
  each document to the requested fields, all of them for the wildcard. The stream an
  operator produces is the list of its documents together with the error that ended
  it, if any.
\<close>

datatype projection = Wildcard | FieldList "string list"

datatype plan =
    Scan string
  | FilterOp expr plan
  | ProjectionOp projection plan

fun project :: "projection \<Rightarrow> doc \<Rightarrow> doc" where
  "project Wildcard d = d"
| "project (FieldList fs) d = filter (\<lambda>(f, v). f \<in> set fs) d"

fun run_plan :: "database \<Rightarrow> plan \<Rightarrow> doc list \<times> error option" where
  "run_plan db (Scan name) =
     (case db name of
        None \<Rightarrow> ([], Some (Error ''table not found''))
      | Some t \<Rightarrow> (map snd t, None))"
| "run_plan db (FilterOp p child) =
     (case run_plan db child of
        (ds, err) \<Rightarrow> (filter (\<lambda>d. eval_expr p d = BoolValue True) ds, err))"
| "run_plan db (ProjectionOp pr child) =
     (case run_plan db child of (ds, err) \<Rightarrow> (map (project pr) ds, err))"

text \<open>
  Modelled from the spec: the logical query and the planner's algorithm: choose the
  scan (a full table scan, there being no index), attach a Filter for the predicate,
  attach a Projection if the query requests specific fields.
\<close>

record query =
  source :: string
  predicate :: "expr option"
  projected :: projection

definition plan_query :: "query \<Rightarrow> plan" where
  "plan_query q =
     (let p = Scan (source q);
          p = (case predicate q of None \<Rightarrow> p | Some e \<Rightarrow> FilterOp e p);
          p = (case projected q of Wildcard \<Rightarrow> p | FieldList fs \<Rightarrow> ProjectionOp (FieldList fs) p)
      in p)"

text \<open>Modelled from the spec: the executor drives the root operator until the end of
  the stream and surfaces every document and the final error slot.\<close>

definition execute :: "database \<Rightarrow> query \<Rightarrow> doc list \<times> error option" where
  "execute db q = run_plan db (plan_query q)"

text \<open>The three rows and the query of \<open>Example\<close>.\<close>

definition user_foo :: doc where
  "user_foo = [(''ID'', Int64Value 10), (''Name'', TextValue ''foo''), (''Age'', Int64Value 15)]"

definition user_bar :: doc where
  "user_bar = [(''ID'', Int64Value 1), (''Name'', TextValue ''bar''), (''Age'', Int64Value 100)]"

definition user_baz :: doc where
  "user_baz = [(''ID'', Int64Value 2), (''Name'', TextValue ''baz''), (''Age'', Int64Value 0)]"

definition select_bar :: query where
  "select_bar =
     \<lparr>source = ''user'',
      predicate = Some (Eq (FieldRef ''Name'') (Literal (TextValue ''bar''))),
      projected = Wildcard\<rparr>"

definition example_db :: "error + database" where
  "example_db =
     (case insert_doc ''user'' user_foo (create_table_if_not_exists ''user'' (\<lambda>name. None)) of
        Inl err \<Rightarrow> Inl err
      | Inr db1 \<Rightarrow>
          (case insert_doc ''user'' user_bar db1 of
             Inl err \<Rightarrow> Inl err
           | Inr db2 \<Rightarrow> insert_doc ''user'' user_baz db2))"

section \<open>Properties of the command line\<close>

text \<open>
  Claim C9. The root command selects the storage engine from the two flags and the
  database path (the first positional argument, empty when absent): with both flags set
  it fails with exit code 2; with a flag set and no path it fails with exit code 2;
  otherwise it runs the shell with engine "badger" when --badger is set, else "bolt"
  when --bolt is set or a path is given, else "memory", and with that path.
\<close>

theorem C9_root_engine_selection:
  fixes shell_Run :: "shell_Options \<Rightarrow> error option"
  shows
    "(\<not> useBolt \<and> \<not> useBadger \<and> First args = '''' \<longrightarrow>
        app_Action shell_Run useBolt useBadger args =
          shell_Run \<lparr>Engine = ''memory'', DBPath = ''''\<rparr>)
   \<and> (\<not> useBadger \<and> First args \<noteq> '''' \<longrightarrow>
        app_Action shell_Run useBolt useBadger args =
          shell_Run \<lparr>Engine = ''bolt'', DBPath = First args\<rparr>)
   \<and> (useBadger \<and> \<not> useBolt \<and> First args \<noteq> '''' \<longrightarrow>
        app_Action shell_Run useBolt useBadger args =
          shell_Run \<lparr>Engine = ''badger'', DBPath = First args\<rparr>)
   \<and> (useBolt \<and> useBadger \<longrightarrow>
        app_Action shell_Run useBolt useBadger args =
          Some (ExitError ''cannot use bolt and badger options at the same time'' 2))
   \<and> ((useBolt \<or> useBadger) \<and> \<not> (useBolt \<and> useBadger) \<and> First args = '''' \<longrightarrow>
        app_Action shell_Run useBolt useBadger args =
          Some (ExitError ''db path required when using bolt or badger'' 2))
   \<and> ((useBolt \<or> useBadger) \<and> First args = '''' \<longrightarrow>
        (\<exists>msg. app_Action shell_Run useBolt useBadger args = Some (ExitError msg 2)))"
  by (simp add: app_Action_def Let_def)

theorem C9_root_engine_selection_witness:
  "app_Action (\<lambda>opts. None) False False [] = None
   \<and> app_Action (\<lambda>opts. Some (Error (Engine opts @ '':'' @ DBPath opts)))
        False False [] = Some (Error ''memory:'')
   \<and> app_Action (\<lambda>opts. Some (Error (Engine opts @ '':'' @ DBPath opts)))
        True False [''my.db''] = Some (Error ''bolt:my.db'')
   \<and> app_Action (\<lambda>opts. Some (Error (Engine opts @ '':'' @ DBPath opts)))
        False False [''my.db''] = Some (Error ''bolt:my.db'')
   \<and> app_Action (\<lambda>opts. Some (Error (Engine opts @ '':'' @ DBPath opts)))
        False True [''my.db''] = Some (Error ''badger:my.db'')
   \<and> (\<exists>msg. app_Action (\<lambda>opts. None) True True [''my.db''] = Some (ExitError msg 2))
   \<and> (\<exists>msg. app_Action (\<lambda>opts. None) True False [] = Some (ExitError msg 2))
   \<and> (\<exists>msg. app_Action (\<lambda>opts. None) False True [] = Some (ExitError msg 2))"
  using
    C9_root_engine_selection [where useBolt = False and useBadger = False and args = "[]"
      and shell_Run = "\<lambda>opts. None"]
    C9_root_engine_selection [where useBolt = False and useBadger = False and args = "[]"
      and shell_Run = "\<lambda>opts. Some (Error (Engine opts @ '':'' @ DBPath opts))"]
    C9_root_engine_selection [where useBolt = True and useBadger = False
      and args = "[''my.db'']"
      and shell_Run = "\<lambda>opts. Some (Error (Engine opts @ '':'' @ DBPath opts))"]
    C9_root_engine_selection [where useBolt = False and useBadger = False
      and args = "[''my.db'']"
      and shell_Run = "\<lambda>opts. Some (Error (Engine opts @ '':'' @ DBPath opts))"]
    C9_root_engine_selection [where useBolt = False and useBadger = True
      and args = "[''my.db'']"
      and shell_Run = "\<lambda>opts. Some (Error (Engine opts @ '':'' @ DBPath opts))"]
    C9_root_engine_selection [where useBolt = True and useBadger = True
      and args = "[''my.db'']" and shell_Run = "\<lambda>opts. None"]
    C9_root_engine_selection [where useBolt = True and useBadger = False and args = "[]"
      and shell_Run = "\<lambda>opts. None"]
    C9_root_engine_selection [where useBolt = False and useBadger = True and args = "[]"
      and shell_Run = "\<lambda>opts. None"]
  by (simp add: First_def)

text \<open>
  Claim C10. The restore command returns an error, having opened no file, unless the
  engine is "bolt" or "badger", there are exactly two positional arguments, the first
  ends in ".sql" and the second ends in ".db". The checks run in that order and the
  first one that fails gives the error. When all four hold, the action goes on to open
  the first argument.
\<close>

theorem C10_restore_validation:
  fixes os_Open :: "string \<Rightarrow> error + 'f"
    and runRestoreCommand :: "'f \<Rightarrow> string \<Rightarrow> string \<Rightarrow> string \<Rightarrow> error option"
  shows
    "(\<not> ((engine = ''bolt'' \<or> engine = ''badger'') \<and> length args = 2
          \<and> HasSuffix (args ! 0) ''.sql'' \<and> HasSuffix (args ! 1) ''.db'') \<longrightarrow>
        fst (restore_Action os_Open runRestoreCommand engine table args) = []
        \<and> snd (restore_Action os_Open runRestoreCommand engine table args) \<noteq> None)
   \<and> (\<not> (engine = ''bolt'' \<or> engine = ''badger'') \<longrightarrow>
        restore_Action os_Open runRestoreCommand engine table args =
          ([], Some (Errorf ''unsupported engine %q, only 'bolt' or 'badger' can be used''
                       [engine])))
   \<and> ((engine = ''bolt'' \<or> engine = ''badger'') \<and> length args \<noteq> 2 \<longrightarrow>
        restore_Action os_Open runRestoreCommand engine table args =
          ([], Some (Errorf ''bad arguments: %v'' [restore_UsageText])))
   \<and> ((engine = ''bolt'' \<or> engine = ''badger'') \<and> length args = 2
        \<and> \<not> HasSuffix (args ! 0) ''.sql'' \<longrightarrow>
        restore_Action os_Open runRestoreCommand engine table args =
          ([], Some (Error ''first argument should be an SQL file'')))
   \<and> ((engine = ''bolt'' \<or> engine = ''badger'') \<and> length args = 2
        \<and> HasSuffix (args ! 0) ''.sql'' \<and> \<not> HasSuffix (args ! 1) ''.db'' \<longrightarrow>
        restore_Action os_Open runRestoreCommand engine table args =
          ([], Some (Error ''second argument should be a database file'')))
   \<and> ((engine = ''bolt'' \<or> engine = ''badger'') \<and> length args = 2
        \<and> HasSuffix (args ! 0) ''.sql'' \<and> HasSuffix (args ! 1) ''.db'' \<longrightarrow>
        fst (restore_Action os_Open runRestoreCommand engine table args) = [args ! 0])"
  unfolding restore_Action_def
  by (simp split: sum.split)

theorem C10_restore_validation_witness:
  "restore_Action example_Open example_runRestore ''memory'' '''' [''dump.txt'']
     = ([], Some (Errorf ''unsupported engine %q, only 'bolt' or 'badger' can be used''
                    [''memory'']))
   \<and> restore_Action example_Open example_runRestore ''bolt'' '''' [''dump.txt'']
     = ([], Some (Errorf ''bad arguments: %v'' [restore_UsageText]))
   \<and> restore_Action example_Open example_runRestore ''bolt'' '''' [''dump.txt'', ''my.txt'']
     = ([], Some (Error ''first argument should be an SQL file''))
   \<and> restore_Action example_Open example_runRestore ''badger'' '''' [''dump.sql'', ''my.txt'']
     = ([], Some (Error ''second argument should be a database file''))
   \<and> fst (restore_Action example_Open example_runRestore ''bolt'' '''' [''dump.sql'', ''my.db''])
     = [''dump.sql'']"
  using
    C10_restore_validation [where engine = "''memory''" and args = "[''dump.txt'']"
      and os_Open = example_Open and runRestoreCommand = example_runRestore and table = "''''"]
    C10_restore_validation [where engine = "''bolt''" and args = "[''dump.txt'']"
      and os_Open = example_Open and runRestoreCommand = example_runRestore and table = "''''"]
    C10_restore_validation [where engine = "''bolt''" and args = "[''dump.txt'', ''my.txt'']"
      and os_Open = example_Open and runRestoreCommand = example_runRestore and table = "''''"]
    C10_restore_validation [where engine = "''badger''" and args = "[''dump.sql'', ''my.txt'']"
      and os_Open = example_Open and runRestoreCommand = example_runRestore and table = "''''"]
    C10_restore_validation [where engine = "''bolt''" and args = "[''dump.sql'', ''my.db'']"
      and os_Open = example_Open and runRestoreCommand = example_runRestore and table = "''''"]
  by (simp add: HasSuffix_def)

section \<open>Properties of the hash set\<close>

subsection \<open>The accumulator\<close>

lemma Write_fields [simp]:
  "h_write (Write h p) = h_write h"
  "h_sum64 (Write h p) = h_sum64 h"
  "h_initial (Write h p) = h_initial h"
  by (simp_all add: Write_def)

lemma Reset_Write [simp]: "Reset (Write h p) = Reset h"
  by (simp add: Reset_def Write_def)

lemma Reset_Reset [simp]: "Reset (Reset h) = Reset h"
  by (simp add: Reset_def)

lemma Reset_idle: "h_state h = h_initial h \<Longrightarrow> Reset h = h"
  by (simp add: Reset_def)

lemma h_state_Reset [simp]: "h_state (Reset h) = h_initial h"
  by (simp add: Reset_def)

lemma h_initial_Reset [simp]: "h_initial (Reset h) = h_initial h"
  by (simp add: Reset_def)

lemma new_Hash64_idle: "h_state (new_Hash64 a) = h_initial (new_Hash64 a)"
  by (simp add: new_Hash64_def)

lemma hash_default: "hash (newDocumentHashSet maphash None) = new_Hash64 maphash"
  by (simp add: newDocumentHashSet_def)

lemma set_keys_new: "set_keys (newDocumentHashSet maphash hash_arg) = {}"
  by (simp add: newDocumentHashSet_def)

lemma fresh_default: "fresh (newDocumentHashSet maphash None)"
  by (simp add: fresh_def newDocumentHashSet_def new_Hash64_def)

lemma default_idle:
  "h_state (hash (newDocumentHashSet maphash None)) =
     h_initial (hash (newDocumentHashSet maphash None))"
  by (simp add: hash_default new_Hash64_idle)

text \<open>Nothing in \<open>generateKey\<close> replaces the accumulator: whatever has been written,
  resetting it afterwards gives what resetting it before would have given.\<close>

lemma loop_Reset:
  "generateKey_loop enc d fs h = (e, h') \<Longrightarrow> Reset h' = Reset h"
proof (induction fs arbitrary: h)
  case Nil
  then show ?case by simp
next
  case (Cons f fs)
  show ?case
  proof (cases "GetByField d f")
    case (Inl err)
    with Cons.prems show ?thesis by simp
  next
    case (Inr v)
    show ?thesis
    proof (cases "snd (enc v)")
      case None
      with Inr Cons.prems
      have "generateKey_loop enc d fs (Write h (fst (enc v))) = (e, h')"
        by (simp add: Encode_def)
      from Cons.IH [OF this] show ?thesis by simp
    next
      case (Some err)
      with Inr Cons.prems show ?thesis by (auto simp: Encode_def)
    qed
  qed
qed

lemma body_Reset:
  "generateKey_body enc h d = (r, h') \<Longrightarrow> Reset h' = Reset h"
  by (auto simp: generateKey_body_def split: sum.splits prod.splits option.splits
      dest: loop_Reset)

subsection \<open>\<open>generateKey\<close> and \<open>Filter\<close>, call by call\<close>

lemma generateKey_result: "fst (generateKey enc s d) = fst (generateKey_body enc (hash s) d)"
  by (simp add: generateKey_def split: prod.splits)

lemma generateKey_hash [simp]: "hash (snd (generateKey enc s d)) = Reset (hash s)"
  by (auto simp: generateKey_def split: prod.splits dest: body_Reset)

lemma generateKey_set_keys [simp]: "set_keys (snd (generateKey enc s d)) = set_keys s"
  by (simp add: generateKey_def split: prod.splits)

lemma generateKey_error_key:
  "snd (fst (generateKey enc s d)) = Some err \<Longrightarrow> fst (generateKey enc s d) = (0, Some err)"
  by (auto simp: generateKey_result generateKey_body_def split: sum.splits prod.splits option.splits)

lemma Filter_hash [simp]: "hash (snd (Filter enc s d)) = Reset (hash s)"
proof -
  obtain k e s' where g: "generateKey enc s d = ((k, e), s')"
    by (metis prod.exhaust)
  then have "hash s' = Reset (hash s)"
    using generateKey_hash [of enc s d] by simp
  with g show ?thesis by (auto simp: Filter_def split: option.splits)
qed

lemma Filter_result:
  "fst (Filter enc s d) =
     (case fst (generateKey enc s d) of
        (k, Some err) \<Rightarrow> (False, Some err)
      | (k, None) \<Rightarrow> (k \<notin> set_keys s, None))"
proof -
  obtain k e s' where g: "generateKey enc s d = ((k, e), s')"
    by (metis prod.exhaust)
  then have "set_keys s' = set_keys s"
    using generateKey_set_keys [of enc s d] by simp
  with g show ?thesis by (auto simp: Filter_def split: option.splits)
qed

lemma Filter_set_keys:
  "set_keys (snd (Filter enc s d)) =
     (case fst (generateKey enc s d) of
        (k, Some err) \<Rightarrow> set_keys s
      | (k, None) \<Rightarrow> insert k (set_keys s))"
proof -
  obtain k e s' where g: "generateKey enc s d = ((k, e), s')"
    by (metis prod.exhaust)
  then have "set_keys s' = set_keys s"
    using generateKey_set_keys [of enc s d] by simp
  with g show ?thesis by (auto simp: Filter_def split: option.splits)
qed

lemma Filter_error:
  assumes "fst (generateKey enc s d) = (k, Some err)"
  shows "fst (Filter enc s d) = (False, Some err) \<and> set_keys (snd (Filter enc s d)) = set_keys s"
  using assms by (simp add: Filter_result Filter_set_keys)

text \<open>With the accumulator in its initial state, the call computes the document's
  surrogate key.\<close>

lemma keyOf_idle:
  assumes "h_state (hash s) = h_initial (hash s)"
  shows "keyOf enc (hash s) d =
           (case fst (generateKey enc s d) of (k, None) \<Rightarrow> Some k | (k, Some err) \<Rightarrow> None)"
  using assms by (simp add: keyOf_def generateKey_result Reset_idle)

lemma Filter_idle_result:
  assumes "h_state (hash s) = h_initial (hash s)"
  shows "fst (fst (Filter enc s d)) \<longleftrightarrow>
           (\<exists>k. keyOf enc (hash s) d = Some k \<and> k \<notin> set_keys s)"
  by (cases "fst (generateKey enc s d)")
     (auto simp: keyOf_idle [OF assms] Filter_result split: option.splits)

lemma Filter_idle_set_keys:
  assumes "h_state (hash s) = h_initial (hash s)"
  shows "set_keys (snd (Filter enc s d)) = set_keys s \<union> set_option (keyOf enc (hash s) d)"
  by (cases "fst (generateKey enc s d)")
     (auto simp: keyOf_idle [OF assms] Filter_set_keys split: option.splits)

lemma Filter_idle_hash:
  assumes "h_state (hash s) = h_initial (hash s)"
  shows "hash (snd (Filter enc s d)) = hash s"
  using assms by (simp add: Reset_idle)

subsection \<open>Streams\<close>

lemma Filter_stream_Cons:
  "fst (Filter_stream enc s (d # ds)) =
     (if fst (fst (Filter enc s d)) then [d] else []) @ fst (Filter_stream enc (snd (Filter enc s d)) ds)"
  by (simp split: prod.splits)

lemma Filter_stream_Cons_state:
  "snd (Filter_stream enc s (d # ds)) = snd (Filter_stream enc (snd (Filter enc s d)) ds)"
  by (simp split: prod.splits)

lemma Filter_stream_hash:
  "hash (snd (Filter_stream enc s ds)) = (if ds = [] then hash s else Reset (hash s))"
proof (induction ds arbitrary: s)
  case Nil
  then show ?case by simp
next
  case (Cons d ds)
  have "hash (snd (Filter_stream enc (snd (Filter enc s d)) ds)) = Reset (hash s)"
    unfolding Cons.IH by simp
  then show ?case by (simp only: Filter_stream_Cons_state) simp
qed

lemma Filter_stream_set_keys_mono:
  "set_keys s \<subseteq> set_keys (snd (Filter_stream enc s ds))"
proof (induction ds arbitrary: s)
  case Nil
  then show ?case by simp
next
  case (Cons d ds)
  have "set_keys s \<subseteq> set_keys (snd (Filter enc s d))"
    by (cases "fst (generateKey enc s d)") (auto simp: Filter_set_keys split: option.splits)
  also have "\<dots> \<subseteq> set_keys (snd (Filter_stream enc (snd (Filter enc s d)) ds))"
    by (rule Cons.IH)
  finally show ?case by (simp only: Filter_stream_Cons_state)
qed

lemma Filter_stream_first_seen:
  assumes "h_state (hash s) = h_initial (hash s)"
  shows "fst (Filter_stream enc s ds) =
           nths ds {i. i < length ds \<and>
                       (\<exists>k. keyOf enc (hash s) (ds ! i) = Some k \<and> k \<notin> set_keys s
                            \<and> Some k \<notin> set (map (keyOf enc (hash s)) (take i ds)))}"
  using assms
proof (induction ds arbitrary: s)
  case Nil
  then show ?case by simp
next
  case (Cons d ds)
  let ?s' = "snd (Filter enc s d)"
  let ?key = "keyOf enc (hash s)"
  have h': "hash ?s' = hash s"
    by (rule Filter_idle_hash [OF Cons.prems])
  then have idle': "h_state (hash ?s') = h_initial (hash ?s')"
    using Cons.prems by simp
  have keys': "set_keys ?s' = set_keys s \<union> set_option (?key d)"
    by (rule Filter_idle_set_keys [OF Cons.prems])
  let ?A = "{i. i < length (d # ds) \<and>
                (\<exists>k. ?key ((d # ds) ! i) = Some k \<and> k \<notin> set_keys s
                     \<and> Some k \<notin> set (map ?key (take i (d # ds))))}"
  let ?B = "{i. i < length ds \<and>
                (\<exists>k. ?key (ds ! i) = Some k \<and> k \<notin> set_keys ?s'
                     \<and> Some k \<notin> set (map ?key (take i ds)))}"
  have zero: "0 \<in> ?A \<longleftrightarrow> fst (fst (Filter enc s d))"
    by (simp add: Filter_idle_result [OF Cons.prems])
  have shift: "{j. Suc j \<in> ?A} = ?B"
    unfolding keys' by (cases "?key d") auto
  have "fst (Filter_stream enc ?s' ds) = nths ds ?B"
    using Cons.IH [OF idle'] unfolding h' .
  then show ?case
    unfolding Filter_stream_Cons nths_Cons zero shift by simp
qed

lemma history_independent:
  assumes "h_state (hash s) = h_initial (hash s)"
  shows "fst (generateKey enc (snd (Filter_stream enc s ds1)) d) =
         fst (generateKey enc (snd (Filter_stream enc s ds2)) d)"
proof -
  from assms have "hash (snd (Filter_stream enc s xs)) = hash s" for xs
    by (simp add: Filter_stream_hash Reset_idle)
  then show ?thesis by (simp add: generateKey_result)
qed

subsection \<open>The loop over the fields\<close>

lemma loop_skip_ok:
  assumes "\<forall>g\<in>set pre. \<exists>v. GetByField d g = Inr v \<and> snd (enc v) = None"
  shows "\<exists>h'. generateKey_loop enc d (pre @ rest) h = generateKey_loop enc d rest h'"
  using assms
proof (induction pre arbitrary: h)
  case Nil
  then show ?case by auto
next
  case (Cons g pre)
  then obtain v where v: "GetByField d g = Inr v" "snd (enc v) = None"
    by auto
  from Cons.prems have "\<forall>g\<in>set pre. \<exists>v. GetByField d g = Inr v \<and> snd (enc v) = None"
    by simp
  from Cons.IH [OF this, of "Write h (fst (enc v))"] v show ?case
    by (simp add: Encode_def)
qed

lemma loop_first_error:
  assumes "\<forall>g\<in>set pre. \<exists>v. GetByField d g = Inr v \<and> snd (enc v) = None"
    and "GetByField d f = Inl err \<or> (\<exists>v. GetByField d f = Inr v \<and> snd (enc v) = Some err)"
  shows "fst (generateKey_loop enc d (pre @ f # post) h) = Some err"
proof -
  from loop_skip_ok [OF assms(1), of "f # post" h] obtain h'
    where "generateKey_loop enc d (pre @ f # post) h = generateKey_loop enc d (f # post) h'"
    by blast
  moreover have "fst (generateKey_loop enc d (f # post) h') = Some err"
    using assms(2) by (auto simp: Encode_def)
  ultimately show ?thesis by simp
qed

lemma generateKey_first_error:
  assumes "Fields d = Inr (pre @ f # post)"
    and "\<forall>g\<in>set pre. \<exists>v. GetByField d g = Inr v \<and> snd (enc v) = None"
    and "GetByField d f = Inl err \<or> (\<exists>v. GetByField d f = Inr v \<and> snd (enc v) = Some err)"
  shows "fst (generateKey enc s d) = (0, Some err)"
proof -
  have "fst (generateKey_loop enc d (pre @ f # post) (hash s)) = Some err"
    by (rule loop_first_error [OF assms(2,3)])
  then show ?thesis
    using assms(1)
    by (cases "generateKey_loop enc d (pre @ f # post) (hash s)")
       (simp add: generateKey_result generateKey_body_def)
qed

lemma loop_values:
  assumes "map (GetByField d) fs = map Inr vs"
    and "\<forall>v\<in>set vs. snd (enc v) = None"
  shows "generateKey_loop enc d fs h =
           (None, h\<lparr>h_state := foldl (h_write h) (h_state h) (map (\<lambda>v. fst (enc v)) vs)\<rparr>)"
  using assms
proof (induction fs arbitrary: vs h)
  case Nil
  then show ?case by simp
next
  case (Cons f fs)
  then obtain v ws where vs: "vs = v # ws" and f: "GetByField d f = Inr v"
    and rest: "map (GetByField d) fs = map Inr ws"
    by (cases vs) auto
  from Cons.prems(2) vs have ok: "snd (enc v) = None" and oks: "\<forall>v\<in>set ws. snd (enc v) = None"
    by simp_all
  show ?case
    using f ok Cons.IH [OF rest oks, of "Write h (fst (enc v))"]
    by (simp add: vs Encode_def Write_def)
qed

lemma generateKey_values:
  assumes "Fields d = Inr fs"
    and "map (GetByField d) fs = map Inr vs"
    and "\<forall>v\<in>set vs. snd (enc v) = None"
  shows "fst (generateKey enc s d) =
           (h_sum64 (hash s)
              (foldl (h_write (hash s)) (h_state (hash s)) (map (\<lambda>v. fst (enc v)) vs)), None)"
  using assms(1) loop_values [OF assms(2,3), of "hash s"]
  by (simp add: generateKey_result generateKey_body_def Sum64_def)

lemma loop_cong:
  "GetByField d1 = GetByField d2 \<Longrightarrow>
   generateKey_loop enc d1 fs h = generateKey_loop enc d2 fs h"
  by (induction fs arbitrary: h) (auto split: sum.splits prod.splits option.splits)

lemma body_cong:
  assumes "Fields d1 = Fields d2" and "GetByField d1 = GetByField d2"
  shows "generateKey_body enc h d1 = generateKey_body enc h d2"
  using assms(1)
  by (cases "Fields d2") (simp_all add: generateKey_body_def loop_cong [OF assms(2)])

lemma generateKey_cong:
  assumes "Fields d1 = Fields d2" and "GetByField d1 = GetByField d2"
  shows "generateKey enc s d1 = generateKey enc s d2"
  by (simp add: generateKey_def body_cong [OF assms])

lemma Fields_fieldBuffer: "Fields (fieldBuffer kvs) = Inr (sort (map fst kvs))"
  by (simp add: Fields_def fieldBuffer_def)

lemma GetByField_fieldBuffer:
  "GetByField (fieldBuffer kvs) =
     (\<lambda>field. case map_of kvs field of None \<Rightarrow> Inl (Error ''field not found'') | Some v \<Rightarrow> Inr v)"
  by (simp add: fieldBuffer_def)

subsection \<open>Keys of the concrete documents\<close>

lemma key_doc_bar: "keyOf example_encoder fnv_New64a doc_bar = Some 8013406376237585713"
  by code_simp

lemma key_doc_baz: "keyOf example_encoder fnv_New64a doc_baz = Some 8195403585556432456"
  by code_simp

subsection \<open>The claims about the hash set\<close>

text \<open>
  Claim C1. Let a stream of documents be fed, one \<open>Filter\<close> call after the other, through
  a fresh hash set (no key recorded, accumulator in its initial state). The documents
  that pass are exactly those at the positions \<open>i\<close> whose surrogate key exists and is
  not the key of any document at an earlier position, and they come out in input
  order (\<open>nths\<close> keeps the order of the list). In particular a document that has a key,
  followed by itself or by any document with the same key, leaves one survivor, and
  two documents with different keys leave two. A document whose key computation fails
  has no key and does not pass.
\<close>

theorem C1_distinct_first_seen:
  assumes "fresh s"
  shows
    "fst (Filter_stream enc s ds) =
       nths ds {i. i < length ds \<and> keyOf enc (hash s) (ds ! i) \<noteq> None
                   \<and> keyOf enc (hash s) (ds ! i) \<notin> set (map (keyOf enc (hash s)) (take i ds))}
     \<and> (keyOf enc (hash s) d \<noteq> None \<and> keyOf enc (hash s) d' = keyOf enc (hash s) d \<longrightarrow>
        fst (Filter_stream enc s [d, d']) = [d])
     \<and> (keyOf enc (hash s) d1 \<noteq> None \<and> keyOf enc (hash s) d2 \<noteq> None
          \<and> keyOf enc (hash s) d1 \<noteq> keyOf enc (hash s) d2 \<longrightarrow>
        fst (Filter_stream enc s [d1, d2]) = [d1, d2])"
proof -
  from assms have idle: "h_state (hash s) = h_initial (hash s)" and empty: "set_keys s = {}"
    by (simp_all add: fresh_def)
  have general: "fst (Filter_stream enc s xs) =
       nths xs {i. i < length xs \<and> keyOf enc (hash s) (xs ! i) \<noteq> None
                   \<and> keyOf enc (hash s) (xs ! i) \<notin> set (map (keyOf enc (hash s)) (take i xs))}"
    for xs
  proof -
    have "{i. i < length xs \<and>
              (\<exists>k. keyOf enc (hash s) (xs ! i) = Some k \<and> k \<notin> set_keys s
                   \<and> Some k \<notin> set (map (keyOf enc (hash s)) (take i xs)))}
        = {i. i < length xs \<and> keyOf enc (hash s) (xs ! i) \<noteq> None
              \<and> keyOf enc (hash s) (xs ! i) \<notin> set (map (keyOf enc (hash s)) (take i xs))}"
      using empty by (intro Collect_cong conj_cong refl) (auto simp: image_iff)
    then show ?thesis
      using Filter_stream_first_seen [OF idle, of enc xs] by simp
  qed
  have twice: "fst (Filter_stream enc s [d, d']) = [d]"
    if "keyOf enc (hash s) d \<noteq> None" "keyOf enc (hash s) d' = keyOf enc (hash s) d"
    unfolding general [of "[d, d']"] using that by (simp add: nths_Cons)
  have two: "fst (Filter_stream enc s [d1, d2]) = [d1, d2]"
    if "keyOf enc (hash s) d1 \<noteq> None" "keyOf enc (hash s) d2 \<noteq> None"
       "keyOf enc (hash s) d1 \<noteq> keyOf enc (hash s) d2"
    unfolding general [of "[d1, d2]"] using that by (simp add: nths_Cons)
  from general twice two show ?thesis by blast
qed

theorem C1_distinct_first_seen_witness:
  "fresh (newDocumentHashSet fnv64a None)
   \<and> fst (Filter_stream example_encoder (newDocumentHashSet fnv64a None)
            [doc_bar, doc_bar, doc_baz, doc_bar]) = [doc_bar, doc_baz]
   \<and> fst (Filter_stream example_encoder (newDocumentHashSet fnv64a None)
            [doc_bar, doc_bar]) = [doc_bar]
   \<and> fst (Filter_stream example_encoder (newDocumentHashSet fnv64a None)
            [doc_bar, doc_baz]) = [doc_bar, doc_baz]"
proof -
  have f: "fresh (newDocumentHashSet fnv64a None)"
    by (rule fresh_default)
  have h: "hash (newDocumentHashSet fnv64a None) = fnv_New64a"
    by (simp add: newDocumentHashSet_def fnv_New64a_def)
  show ?thesis
    using f C1_distinct_first_seen [OF f, of example_encoder
        "[doc_bar, doc_bar, doc_baz, doc_bar]" doc_bar doc_bar doc_bar doc_baz]
    unfolding h
    by (simp add: nths_Cons key_doc_bar key_doc_baz)
qed

text \<open>
  Claim C2, as amended. The key is computed from the encodings of the document's values
  alone, written to the accumulator in the sorted order of the field names; the names
  themselves are never written. So two documents whose values, taken in that order,
  are the same receive the same key, whatever their field names are.
\<close>

theorem C2_key_from_values_only:
  assumes "Fields d1 = Inr fs1" and "map (GetByField d1) fs1 = map Inr vs"
    and "Fields d2 = Inr fs2" and "map (GetByField d2) fs2 = map Inr vs"
    and "\<forall>v\<in>set vs. snd (enc v) = None"
  shows "fst (generateKey enc s d1) =
           (h_sum64 (hash s)
              (foldl (h_write (hash s)) (h_state (hash s)) (map (\<lambda>v. fst (enc v)) vs)), None)
         \<and> fst (generateKey enc s d2) = fst (generateKey enc s d1)"
  using generateKey_values [OF assms(1,2,5), of s] generateKey_values [OF assms(3,4,5), of s]
  by simp

theorem C2_key_from_values_only_witness:
  "Fields doc_a1 = Inr [''a''] \<and> Fields doc_b1 = Inr [''b'']
   \<and> fst (generateKey example_encoder (newDocumentHashSet fnv64a None) doc_a1)
       = (12636866774413919964, None)
   \<and> fst (generateKey example_encoder (newDocumentHashSet fnv64a None) doc_b1)
       = (12636866774413919964, None)"
proof -
  have a: "Fields doc_a1 = Inr [''a'']" and b: "Fields doc_b1 = Inr [''b'']"
    by (simp_all add: Fields_def doc_a1_def doc_b1_def fieldBuffer_def)
  have va: "map (GetByField doc_a1) [''a''] = map Inr [Int64Value 1]"
    and vb: "map (GetByField doc_b1) [''b''] = map Inr [Int64Value 1]"
    by (simp_all add: doc_a1_def doc_b1_def fieldBuffer_def)
  have ok: "\<forall>v\<in>set [Int64Value 1]. snd (example_encoder v) = None"
    by simp
  have k: "h_sum64 fnv_New64a (foldl (h_write fnv_New64a) (h_state fnv_New64a)
             (map (\<lambda>v. fst (example_encoder v)) [Int64Value 1])) = 12636866774413919964"
    by code_simp
  have h: "hash (newDocumentHashSet fnv64a None) = fnv_New64a"
    by (simp add: newDocumentHashSet_def fnv_New64a_def)
  show ?thesis
    using a b C2_key_from_values_only [OF a va b vb ok, of "newDocumentHashSet fnv64a None"]
    unfolding h k by simp
qed

text \<open>
  The claim as stated fails: the documents \<open>{a: 1}\<close> and \<open>{b: 1}\<close> have different
  field names and the same value, and receive the same key, the accumulator having
  been fed the same bytes for both (so this is no collision of the hash function).
\<close>

theorem C2_field_names_counterexample:
  "Fields doc_a1 = Inr [''a''] \<and> Fields doc_b1 = Inr [''b'']
   \<and> GetByField doc_a1 ''a'' = Inr (Int64Value 1) \<and> GetByField doc_b1 ''b'' = Inr (Int64Value 1)
   \<and> fst (generateKey example_encoder (newDocumentHashSet fnv64a None) doc_a1)
     = fst (generateKey example_encoder (newDocumentHashSet fnv64a None) doc_b1)
   \<and> h_state (snd (generateKey_body example_encoder fnv_New64a doc_a1))
     = h_state (snd (generateKey_body example_encoder fnv_New64a doc_b1))"
proof -
  have "fst (generateKey example_encoder (newDocumentHashSet fnv64a None) doc_a1)
     = fst (generateKey example_encoder (newDocumentHashSet fnv64a None) doc_b1)"
    by code_simp
  moreover have "h_state (snd (generateKey_body example_encoder fnv_New64a doc_a1))
     = h_state (snd (generateKey_body example_encoder fnv_New64a doc_b1))"
    by code_simp
  ultimately show ?thesis
    by (simp add: Fields_def doc_a1_def doc_b1_def fieldBuffer_def)
qed

text \<open>
  Claim C3. Let \<open>d1\<close> and \<open>d2\<close> be different documents, let \<open>d1\<close> pass the filter, and
  let the key computed for \<open>d2\<close> when it arrives, directly or after any further
  documents, be the key that was computed for \<open>d1\<close>. Then \<open>Filter\<close> returns false,
  without an error, for \<open>d2\<close>.
\<close>

theorem C3_collision_filtered:
  assumes "d1 \<noteq> d2"
    and "fst (Filter enc s d1) = (True, None)"
    and "fst (generateKey enc (snd (Filter_stream enc (snd (Filter enc s d1)) ds)) d2) =
         fst (generateKey enc s d1)"
  shows "fst (Filter enc (snd (Filter_stream enc (snd (Filter enc s d1)) ds)) d2) = (False, None)"
proof -
  let ?s1 = "snd (Filter enc s d1)"
  let ?s2 = "snd (Filter_stream enc ?s1 ds)"
  obtain k e where g: "fst (generateKey enc s d1) = (k, e)"
    by (metis prod.exhaust)
  with assms(2) have e: "e = None" and "k \<notin> set_keys s"
    by (auto simp: Filter_result split: option.splits)
  with g have "k \<in> set_keys ?s1"
    by (simp add: Filter_set_keys)
  then have "k \<in> set_keys ?s2"
    using Filter_stream_set_keys_mono [of ?s1 enc ds] by blast
  moreover have "fst (generateKey enc ?s2 d2) = (k, None)"
    using assms(3) g e by simp
  ultimately show ?thesis
    by (simp add: Filter_result)
qed

theorem C3_collision_filtered_witness:
  "doc_blob12 \<noteq> doc_blob21
   \<and> fst (Filter example_encoder (newDocumentHashSet fnv64a (Some sum_Hash64)) doc_blob12) = (True, None)
   \<and> fst (generateKey example_encoder (newDocumentHashSet fnv64a (Some sum_Hash64)) doc_blob12)
       = (147, None)
   \<and> fst (generateKey example_encoder
            (snd (Filter_stream example_encoder
                   (snd (Filter example_encoder (newDocumentHashSet fnv64a (Some sum_Hash64)) doc_blob12))
                   [doc_bar])) doc_blob21) = (147, None)
   \<and> fst (Filter example_encoder
            (snd (Filter_stream example_encoder
                   (snd (Filter example_encoder (newDocumentHashSet fnv64a (Some sum_Hash64)) doc_blob12))
                   [doc_bar])) doc_blob21) = (False, None)"
proof -
  have ne: "doc_blob12 \<noteq> doc_blob21"
    by (simp add: doc_blob12_def doc_blob21_def fieldBuffer_def)
  have p: "fst (Filter example_encoder (newDocumentHashSet fnv64a (Some sum_Hash64)) doc_blob12)
             = (True, None)"
    by code_simp
  have k1: "fst (generateKey example_encoder (newDocumentHashSet fnv64a (Some sum_Hash64)) doc_blob12)
       = (147, None)"
    by code_simp
  have k2: "fst (generateKey example_encoder
            (snd (Filter_stream example_encoder
                   (snd (Filter example_encoder (newDocumentHashSet fnv64a (Some sum_Hash64)) doc_blob12))
                   [doc_bar])) doc_blob21) = (147, None)"
    by code_simp
  show ?thesis
    using ne p k1 k2
      C3_collision_filtered [OF ne p, of "[doc_bar]"]
    by simp
qed

text \<open>
  Claim C4. Two documents with the same field-to-value pairs (field names unique) in
  different insertion order get the same result from \<open>generateKey\<close>, key and
  accumulator alike, because \<open>Fields\<close> sorts the names.
\<close>

theorem C4_field_order_independent:
  assumes "distinct (map fst kvs1)" and "distinct (map fst kvs2)"
    and "set kvs1 = set kvs2"
  shows "generateKey enc s (fieldBuffer kvs1) = generateKey enc s (fieldBuffer kvs2)"
proof -
  have "set (map fst kvs1) = set (map fst kvs2)"
    using assms(3) by simp
  then have "sort (map fst kvs1) = sort (map fst kvs2)"
    using assms(1,2) by (intro sorted_distinct_set_unique) simp_all
  then have fields: "Fields (fieldBuffer kvs1) = Fields (fieldBuffer kvs2)"
    by (simp add: Fields_fieldBuffer)
  have "map_of kvs1 = map_of kvs2"
    using assms by (simp add: map_of_inject_set)
  then have "GetByField (fieldBuffer kvs1) = GetByField (fieldBuffer kvs2)"
    by (simp add: GetByField_fieldBuffer)
  with fields show ?thesis by (rule generateKey_cong)
qed

theorem C4_field_order_independent_witness:
  "distinct (map fst [(''id'', Int64Value 1), (''name'', TextValue ''bar'')])
   \<and> distinct (map fst [(''name'', TextValue ''bar''), (''id'', Int64Value 1)])
   \<and> set [(''id'', Int64Value 1), (''name'', TextValue ''bar'')]
       = set [(''name'', TextValue ''bar''), (''id'', Int64Value 1)]
   \<and> [(''id'', Int64Value 1), (''name'', TextValue ''bar'')]
       \<noteq> [(''name'', TextValue ''bar''), (''id'', Int64Value 1)]
   \<and> fst (generateKey example_encoder (newDocumentHashSet fnv64a None)
        (fieldBuffer [(''name'', TextValue ''bar''), (''id'', Int64Value 1)]))
       = (8013406376237585713, None)
   \<and> generateKey example_encoder (newDocumentHashSet fnv64a None)
        (fieldBuffer [(''id'', Int64Value 1), (''name'', TextValue ''bar'')])
     = generateKey example_encoder (newDocumentHashSet fnv64a None)
        (fieldBuffer [(''name'', TextValue ''bar''), (''id'', Int64Value 1)])"
proof -
  have d1: "distinct (map fst [(''id'', Int64Value 1), (''name'', TextValue ''bar'')])"
    and d2: "distinct (map fst [(''name'', TextValue ''bar''), (''id'', Int64Value 1)])"
    by simp_all
  have st: "set [(''id'', Int64Value 1), (''name'', TextValue ''bar'')]
       = set [(''name'', TextValue ''bar''), (''id'', Int64Value 1)]"
    by auto
  have k: "fst (generateKey example_encoder (newDocumentHashSet fnv64a None)
        (fieldBuffer [(''name'', TextValue ''bar''), (''id'', Int64Value 1)]))
       = (8013406376237585713, None)"
    by code_simp
  show ?thesis
    using d1 d2 st k
      C4_field_order_independent [OF d1 d2 st, of example_encoder
        "newDocumentHashSet fnv64a None"]
    by simp
qed

text \<open>
  Claim C5. Every call of \<open>generateKey\<close>, whether it returns a key or an error, leaves
  the accumulator reset to its initial state. Hence the result computed for a document
  does not depend on the documents hashed before it: in a hash set made with the
  default accumulator, and in any hash set whose accumulator starts in its initial
  state, any two histories \<open>xs\<close> and \<open>ys\<close>, empty or not, give the same result;
  from any accumulator at all any two non-empty histories do.
\<close>

theorem C5_accumulator_reset:
  "hash (snd (generateKey enc s d)) = Reset (hash s)
   \<and> h_state (hash (snd (generateKey enc s d))) = h_initial (hash s)
   \<and> fst (generateKey enc (snd (Filter_stream enc (newDocumentHashSet maphash None) xs)) d) =
     fst (generateKey enc (snd (Filter_stream enc (newDocumentHashSet maphash None) ys)) d)
   \<and> (h_state (hash s) = h_initial (hash s) \<longrightarrow>
        fst (generateKey enc (snd (Filter_stream enc s xs)) d) =
        fst (generateKey enc (snd (Filter_stream enc s ys)) d))
   \<and> (xs \<noteq> [] \<and> ys \<noteq> [] \<longrightarrow>
        fst (generateKey enc (snd (Filter_stream enc s xs)) d) =
        fst (generateKey enc (snd (Filter_stream enc s ys)) d))"
proof -
  have a: "hash (snd (generateKey enc s d)) = Reset (hash s)" by simp
  have b: "h_state (hash (snd (generateKey enc s d))) = h_initial (hash s)" by simp
  have c: "fst (generateKey enc (snd (Filter_stream enc s xs)) d) =
           fst (generateKey enc (snd (Filter_stream enc s ys)) d)"
    if "h_state (hash s) = h_initial (hash s)"
    using that by (rule history_independent)
  have n: "fst (generateKey enc (snd (Filter_stream enc (newDocumentHashSet maphash None) xs)) d) =
      fst (generateKey enc (snd (Filter_stream enc (newDocumentHashSet maphash None) ys)) d)"
    using default_idle by (rule history_independent)
  have e: "fst (generateKey enc (snd (Filter_stream enc s xs)) d) =
           fst (generateKey enc (snd (Filter_stream enc s ys)) d)"
    if "xs \<noteq> []" "ys \<noteq> []"
    using that by (simp add: generateKey_result Filter_stream_hash)
  from a b n c e show ?thesis by blast
qed

theorem C5_accumulator_reset_witness:
  "h_state (hash (newDocumentHashSet fnv64a None)) =
     h_initial (hash (newDocumentHashSet fnv64a None))
   \<and> fst (generateKey example_encoder
            (snd (Filter_stream example_encoder (newDocumentHashSet fnv64a None) [])) doc_bar)
     = fst (generateKey example_encoder
            (snd (Filter_stream example_encoder (newDocumentHashSet fnv64a None)
                   [doc_baz, fieldBuffer [(''x'', ArrayValue [])]])) doc_bar)
   \<and> fst (generateKey example_encoder (newDocumentHashSet fnv64a None) doc_bar)
     = (8013406376237585713, None)
   \<and> fst (generateKey example_encoder
            ((newDocumentHashSet fnv64a None)\<lparr>hash := Write fnv_New64a [1]\<rparr>) doc_bar)
     \<noteq> (8013406376237585713, None)
   \<and> fst (generateKey example_encoder
            (snd (Filter_stream example_encoder
                   ((newDocumentHashSet fnv64a None)\<lparr>hash := Write fnv_New64a [1]\<rparr>)
                   [doc_baz])) doc_bar)
     = fst (generateKey example_encoder
            (snd (Filter_stream example_encoder
                   ((newDocumentHashSet fnv64a None)\<lparr>hash := Write fnv_New64a [1]\<rparr>)
                   [fieldBuffer [(''x'', ArrayValue [])], doc_bar])) doc_bar)"
proof -
  have k: "fst (generateKey example_encoder (newDocumentHashSet fnv64a None) doc_bar)
     = (8013406376237585713, None)"
    by code_simp
  have k': "fst (generateKey example_encoder
            ((newDocumentHashSet fnv64a None)\<lparr>hash := Write fnv_New64a [1]\<rparr>) doc_bar)
     \<noteq> (8013406376237585713, None)"
    by code_simp
  show ?thesis
    using default_idle [of fnv64a] k k'
      C5_accumulator_reset [where enc = example_encoder
        and s = "newDocumentHashSet fnv64a None" and d = doc_bar and maphash = fnv64a
        and xs = "[]" and ys = "[doc_baz, fieldBuffer [(''x'', ArrayValue [])]]"]
      C5_accumulator_reset [where enc = example_encoder
        and s = "(newDocumentHashSet fnv64a None)\<lparr>hash := Write fnv_New64a [1]\<rparr>"
        and d = doc_bar and maphash = fnv64a
        and xs = "[doc_baz]" and ys = "[fieldBuffer [(''x'', ArrayValue [])], doc_bar]"]
    by simp
qed

text \<open>
  Claim C6. \<open>Filter\<close> returns the error of \<open>generateKey\<close> unchanged, and when there is
  one it returns false and leaves the set of keys as it was. This covers the three
  sources of an error: the enumeration of the fields, the lookup of the first field
  that cannot be read, and the encoding of the first value that cannot be encoded
  (all fields before it having been read and encoded).
\<close>

theorem C6_key_error_propagates:
  "snd (fst (Filter enc s d)) = snd (fst (generateKey enc s d))
   \<and> (snd (fst (generateKey enc s d)) = Some err \<longrightarrow>
        fst (Filter enc s d) = (False, Some err)
        \<and> set_keys (snd (Filter enc s d)) = set_keys s)
   \<and> (Fields d = Inl err \<longrightarrow>
        fst (Filter enc s d) = (False, Some err)
        \<and> set_keys (snd (Filter enc s d)) = set_keys s)
   \<and> (Fields d = Inr (pre @ f # post)
        \<and> (\<forall>g\<in>set pre. \<exists>v. GetByField d g = Inr v \<and> snd (enc v) = None)
        \<and> GetByField d f = Inl err \<longrightarrow>
        fst (Filter enc s d) = (False, Some err)
        \<and> set_keys (snd (Filter enc s d)) = set_keys s)
   \<and> (Fields d = Inr (pre @ f # post)
        \<and> (\<forall>g\<in>set pre. \<exists>v. GetByField d g = Inr v \<and> snd (enc v) = None)
        \<and> GetByField d f = Inr v \<and> snd (enc v) = Some err \<longrightarrow>
        fst (Filter enc s d) = (False, Some err)
        \<and> set_keys (snd (Filter enc s d)) = set_keys s)"
proof -
  have a: "snd (fst (Filter enc s d)) = snd (fst (generateKey enc s d))"
    by (cases "fst (generateKey enc s d)") (auto simp: Filter_result split: option.splits)
  have b: "fst (Filter enc s d) = (False, Some err)
           \<and> set_keys (snd (Filter enc s d)) = set_keys s"
    if "snd (fst (generateKey enc s d)) = Some err"
    using Filter_error [OF generateKey_error_key [OF that]] .
  have c: "snd (fst (generateKey enc s d)) = Some err" if "Fields d = Inl err"
    using that by (simp add: generateKey_result generateKey_body_def)
  have e: "snd (fst (generateKey enc s d)) = Some err"
    if "Fields d = Inr (pre @ f # post)"
       "\<forall>g\<in>set pre. \<exists>v. GetByField d g = Inr v \<and> snd (enc v) = None"
       "GetByField d f = Inl err \<or> (\<exists>v. GetByField d f = Inr v \<and> snd (enc v) = Some err)"
    using generateKey_first_error [OF that, of s] by simp
  from a b c e show ?thesis by blast
qed

theorem C6_key_error_propagates_witness:
  "fst (Filter example_encoder (newDocumentHashSet fnv64a None) doc_unreadable)
     = (False, Some (Error ''unexpected end of encoded document''))
   \<and> set_keys (snd (Filter example_encoder (newDocumentHashSet fnv64a None) doc_unreadable))
     = {}
   \<and> fst (Filter example_encoder (newDocumentHashSet fnv64a None) doc_lookup_fails)
     = (False, Some (Error ''malformed value''))
   \<and> set_keys (snd (Filter example_encoder (newDocumentHashSet fnv64a None) doc_lookup_fails))
     = {}
   \<and> fst (Filter example_encoder (newDocumentHashSet fnv64a None) doc_unsupported)
     = (False, Some (Error ''unsupported type''))
   \<and> set_keys (snd (Filter example_encoder (newDocumentHashSet fnv64a None) doc_unsupported))
     = {}"
proof -
  have f1: "Fields doc_unreadable = Inl (Error ''unexpected end of encoded document'')"
    by (simp add: Fields_def doc_unreadable_def)
  have f2: "Fields doc_lookup_fails = Inr ([''a''] @ ''b'' # [])"
    by (simp add: Fields_def doc_lookup_fails_def)
  have g2: "\<forall>g\<in>set [''a'']. \<exists>v. GetByField doc_lookup_fails g = Inr v
              \<and> snd (example_encoder v) = None"
    by (simp add: doc_lookup_fails_def)
  have l2: "GetByField doc_lookup_fails ''b'' = Inl (Error ''malformed value'')"
    by (simp add: doc_lookup_fails_def)
  have f3: "Fields doc_unsupported = Inr ([''a''] @ ''x'' # [])"
    by (simp add: Fields_def doc_unsupported_def fieldBuffer_def)
  have g3: "\<forall>g\<in>set [''a'']. \<exists>v. GetByField doc_unsupported g = Inr v
              \<and> snd (example_encoder v) = None"
    by (simp add: doc_unsupported_def fieldBuffer_def)
  have l3: "GetByField doc_unsupported ''x'' = Inr (ArrayValue [])
            \<and> snd (example_encoder (ArrayValue [])) = Some (Error ''unsupported type'')"
    by (simp add: doc_unsupported_def fieldBuffer_def)
  have e: "set_keys (newDocumentHashSet fnv64a None) = {}"
    by (simp add: newDocumentHashSet_def fnv_New64a_def)
  show ?thesis
    using f1 f2 g2 l2 f3 g3 l3
      C6_key_error_propagates [of example_encoder "newDocumentHashSet fnv64a None"
        doc_unreadable "Error ''unexpected end of encoded document''"]
      C6_key_error_propagates [of example_encoder "newDocumentHashSet fnv64a None"
        doc_lookup_fails "Error ''malformed value''" "[''a'']" "''b''" "[]"]
      C6_key_error_propagates [of example_encoder "newDocumentHashSet fnv64a None"
        doc_unsupported "Error ''unsupported type''" "[''a'']" "''x''" "[]" "ArrayValue []"]
    unfolding e by simp
qed

text \<open>
  Claim C7, as amended. Called with no hash, \<open>newDocumentHashSet\<close> installs the default
  accumulator and an empty set of keys, so the first \<open>Filter\<close> call returns true for
  any document whose key computation succeeds; for a document whose key computation
  fails it returns false together with the error.
\<close>

theorem C7_default_hash_first_call:
  "hash (newDocumentHashSet maphash None) = new_Hash64 maphash
   \<and> set_keys (newDocumentHashSet maphash None) = {}
   \<and> (snd (fst (generateKey enc (newDocumentHashSet maphash None) d)) = None \<longrightarrow>
        fst (Filter enc (newDocumentHashSet maphash None) d) = (True, None))
   \<and> (snd (fst (generateKey enc (newDocumentHashSet maphash None) d)) = Some err \<longrightarrow>
        fst (Filter enc (newDocumentHashSet maphash None) d) = (False, Some err))"
proof -
  let ?s = "newDocumentHashSet maphash None"
  have e: "set_keys ?s = {}" and h: "hash ?s = new_Hash64 maphash"
    by (simp_all add: newDocumentHashSet_def)
  have "fst (Filter enc ?s d) = (True, None)" if "snd (fst (generateKey enc ?s d)) = None"
    using that by (cases "fst (generateKey enc ?s d)") (simp add: Filter_result e)
  moreover have "fst (Filter enc ?s d) = (False, Some err)"
    if "snd (fst (generateKey enc ?s d)) = Some err"
    using that by (cases "fst (generateKey enc ?s d)") (simp add: Filter_result)
  ultimately show ?thesis using e h by blast
qed

theorem C7_default_hash_first_call_witness:
  "snd (fst (generateKey example_encoder (newDocumentHashSet fnv64a None) doc_bar)) = None
   \<and> fst (Filter example_encoder (newDocumentHashSet fnv64a None) doc_bar) = (True, None)
   \<and> snd (fst (generateKey example_encoder (newDocumentHashSet fnv64a None) doc_unsupported))
       = Some (Error ''unsupported type'')
   \<and> fst (Filter example_encoder (newDocumentHashSet fnv64a None) doc_unsupported)
       = (False, Some (Error ''unsupported type''))"
proof -
  have a: "snd (fst (generateKey example_encoder (newDocumentHashSet fnv64a None) doc_bar))
             = None"
    by code_simp
  have b: "snd (fst (generateKey example_encoder (newDocumentHashSet fnv64a None)
             doc_unsupported)) = Some (Error ''unsupported type'')"
    by code_simp
  show ?thesis
    using a b
      C7_default_hash_first_call [of fnv64a example_encoder doc_bar]
      C7_default_hash_first_call [of fnv64a example_encoder doc_unsupported
        "Error ''unsupported type''"]
    by simp
qed

text \<open>The claim as stated fails for a document that cannot be enumerated: the first
  call on it returns false.\<close>

theorem C7_first_call_counterexample:
  "fst (Filter example_encoder (newDocumentHashSet fnv64a None) doc_unreadable)
     = (False, Some (Error ''unexpected end of encoded document''))"
  by (simp add: Filter_result generateKey_result generateKey_body_def Fields_def
      doc_unreadable_def)

section \<open>Properties of the query pipeline\<close>

lemma select_bar_plan:
  "plan_query select_bar = FilterOp (Eq (FieldRef ''Name'') (Literal (TextValue ''bar''))) (Scan ''user'')"
  by (simp add: plan_query_def select_bar_def)

lemma singleton_of_mset: "mset xs = {#x#} \<Longrightarrow> xs = [x]"
  by simp

text \<open>
  Claim C8. If the table \<open>user\<close> holds exactly the three rows of the example, under
  whatever keys and in whatever order, the query that filters on \<open>Name = "bar"\<close> and
  projects all fields yields the one document \<open>{ID: 1, Name: "bar", Age: 100}\<close> and
  ends without an error.
\<close>

theorem C8_example_query:
  assumes "db ''user'' = Some t"
    and "mset (map snd t) = {#user_foo, user_bar, user_baz#}"
  shows "execute db select_bar = ([user_bar], None)"
proof -
  let ?P = "\<lambda>d. eval_expr (Eq (FieldRef ''Name'') (Literal (TextValue ''bar''))) d = BoolValue True"
  have "mset (filter ?P (map snd t)) = filter_mset ?P {#user_foo, user_bar, user_baz#}"
    using assms(2) by (metis mset_filter)
  also have "\<dots> = {#user_bar#}"
    by (simp add: user_foo_def user_bar_def user_baz_def)
  finally have "filter ?P (map snd t) = [user_bar]"
    by (rule singleton_of_mset)
  then show ?thesis
    using assms(1) by (simp add: execute_def select_bar_plan)
qed

theorem C8_example_query_witness:
  "(case example_db of
      Inl err \<Rightarrow> False
    | Inr db \<Rightarrow>
        db ''user'' = Some [(1, user_foo), (2, user_bar), (3, user_baz)]
        \<and> execute db select_bar = ([user_bar], None))"
proof -
  obtain db where db: "example_db = Inr db"
    and t: "db ''user'' = Some [(1, user_foo), (2, user_bar), (3, user_baz)]"
    by (simp add: example_db_def insert_doc_def create_table_if_not_exists_def next_key_def)
  have "mset (map snd [(1::nat, user_foo), (2, user_bar), (3, user_baz)])
          = {#user_foo, user_bar, user_baz#}"
    by simp
  from C8_example_query [where db = db, OF t this] have "execute db select_bar = ([user_bar], None)" .
  with t show ?thesis unfolding db by simp
qed

end
